theory Spec2Isabelle
  imports Complex_Main
begin

section \<open>The fuzzy bounding-box smoother of \<^verbatim>\<open>src/fuzzy_bbox_smoother.py\<close>\<close>

text \<open>
  The method \<^verbatim>\<open>smooth\<close> is modelled twice. In the first model Python floats are exact
  reals: the arithmetic of the smoother is the arithmetic of the source with rounding
  error, overflow and the special values (infinities, NaN) left out. The second model,
  further down, keeps overflow and the special values, and with them the exceptions
  that float arithmetic and \<^verbatim>\<open>int\<close> raise.
\<close>

subsection \<open>Data\<close>

text \<open>A bounding box is the tuple \<open>(x1, y1, x2, y2)\<close>.\<close>

type_synonym bbox = "real \<times> real \<times> real \<times> real"

text \<open>
  The four state variables of \<^verbatim>\<open>FuzzyBBoxSmoother\<close>; each one is \<^verbatim>\<open>None\<close> or a number,
  independently of the others, as the attributes of the Python object are.
\<close>

record smoother_state =
  prev_cx :: "real option"
  prev_cy :: "real option"
  prev_w :: "real option"
  prev_h :: "real option"

text \<open>
  The exceptions the body of \<^verbatim>\<open>smooth\<close> can raise. In exact arithmetic only the first
  one: arithmetic between a number and \<^verbatim>\<open>None\<close>. On floats also \<^verbatim>\<open>OverflowError\<close> (from
  \<^verbatim>\<open>**\<close> and from \<^verbatim>\<open>int\<close> of an infinity) and \<^verbatim>\<open>ValueError\<close> (from \<^verbatim>\<open>int\<close> of a NaN).
\<close>

datatype py_error = TypeError | OverflowError | ValueError

text \<open>
  The call \<^verbatim>\<open>self.smoother.compute()\<close> followed by reading \<^verbatim>\<open>output['alpha']\<close>, as a
  function of the two inputs: \<open>None\<close> when the library raises, \<open>Some a\<close> when it yields
  the number \<open>a\<close>.
\<close>

type_synonym engine = "real \<Rightarrow> real \<Rightarrow> real option"

subsection \<open>Numeric helpers\<close>

text \<open>\<^verbatim>\<open>np.clip(x, lo, hi)\<close>.\<close>

definition clip :: "real \<Rightarrow> real \<Rightarrow> real \<Rightarrow> real" where
  "clip x lo hi = min (max x lo) hi"

text \<open>Python's \<^verbatim>\<open>int(x)\<close> on a float: truncation towards zero.\<close>

definition py_int :: "real \<Rightarrow> int" where
  "py_int x = (if 0 \<le> x then \<lfloor>x\<rfloor> else \<lceil>x\<rceil>)"

text \<open>Lines 112 to 119: the inference call inside \<^verbatim>\<open>try\<close>, with the bare \<^verbatim>\<open>except\<close>
  that replaces any failure by \<open>0.3\<close>.\<close>

definition infer_alpha :: "engine \<Rightarrow> real \<Rightarrow> real \<Rightarrow> real" where
  "infer_alpha eng motion_magnitude conf =
     (case eng motion_magnitude conf of Some alpha \<Rightarrow> alpha | None \<Rightarrow> 3 / 10)"

subsection \<open>Operations\<close>

text \<open>The state at the end of \<^verbatim>\<open>__init__\<close> (lines 63 to 66).\<close>

definition init_state :: smoother_state where
  "init_state = \<lparr>prev_cx = None, prev_cy = None, prev_w = None, prev_h = None\<rparr>"

text \<open>\<^verbatim>\<open>reset\<close> (lines 68 to 73).\<close>

definition reset :: "smoother_state \<Rightarrow> smoother_state" where
  "reset s = s\<lparr>prev_cx := None, prev_cy := None, prev_w := None, prev_h := None\<rparr>"

text \<open>
  \<^verbatim>\<open>smooth\<close> (lines 75 to 141). The result is the returned tuple, or the exception
  raised, paired with the state after the call. Only \<^verbatim>\<open>prev_cx\<close> is tested against
  \<^verbatim>\<open>None\<close>; the other three are used in arithmetic as they are, in the order \<^verbatim>\<open>prev_cy\<close>
  (line 104), \<^verbatim>\<open>prev_w\<close> (line 126), \<^verbatim>\<open>prev_h\<close> (line 127), all before the first
  assignment to the state at line 130, so a raise leaves the state as it was.
\<close>

definition smooth ::
  "engine \<Rightarrow> smoother_state \<Rightarrow> bbox \<Rightarrow> real \<Rightarrow> (py_error + bbox) \<times> smoother_state" where
  "smooth eng s bbox conf =
     (case bbox of (x1, y1, x2, y2) \<Rightarrow>
        (let cx = (x1 + x2) / 2;
             cy = (y1 + y2) / 2;
             w = x2 - x1;
             h = y2 - y1
         in (case prev_cx s of
               None \<Rightarrow>
                 (Inr bbox, s\<lparr>prev_cx := Some cx, prev_cy := Some cy,
                              prev_w := Some w, prev_h := Some h\<rparr>)
             | Some pcx \<Rightarrow>
                 (case prev_cy s of
                    None \<Rightarrow> (Inl TypeError, s)
                  | Some pcy \<Rightarrow>
                      (let dx = cx - pcx;
                           dy = cy - pcy;
                           motion_magnitude = clip (sqrt (dx\<^sup>2 + dy\<^sup>2)) 0 100;
                           conf' = clip conf 0 1;
                           alpha = infer_alpha eng motion_magnitude conf';
                           cx_smooth = pcx + alpha * (cx - pcx);
                           cy_smooth = pcy + alpha * (cy - pcy)
                       in (case prev_w s of
                             None \<Rightarrow> (Inl TypeError, s)
                           | Some pw \<Rightarrow>
                               (case prev_h s of
                                  None \<Rightarrow> (Inl TypeError, s)
                                | Some ph \<Rightarrow>
                                    (let w_smooth = pw + (1 / 2) * (w - pw);
                                         h_smooth = ph + (1 / 2) * (h - ph)
                                     in (Inr (of_int (py_int (cx_smooth - w_smooth / 2)),
                                              of_int (py_int (cy_smooth - h_smooth / 2)),
                                              of_int (py_int (cx_smooth + w_smooth / 2)),
                                              of_int (py_int (cy_smooth + h_smooth / 2))),
                                         s\<lparr>prev_cx := Some cx_smooth,
                                           prev_cy := Some cy_smooth,
                                           prev_w := Some w_smooth,
                                           prev_h := Some h_smooth\<rparr>)))))))))"

text \<open>\<^verbatim>\<open>get_debug_info\<close> (lines 143 to 150): the four attributes, in the order of the keys.\<close>

definition get_debug_info ::
  "smoother_state \<Rightarrow> real option \<times> real option \<times> real option \<times> real option" where
  "get_debug_info s = (prev_cx s, prev_cy s, prev_w s, prev_h s)"

section \<open>The inference engine\<close>

text \<open>
  The linguistic terms of the three fuzzy variables (lines 24 to 38 of the source).
\<close>

datatype motion_term = MotionSmall | MotionMedium | MotionLarge

datatype confidence_term = ConfLow | ConfMedium | ConfHigh

datatype alpha_term = VerySmall | Small | Medium | Large | VeryLarge

text \<open>
  Modelled from the spec: the trapezoid membership function (\<^verbatim>\<open>fuzz.trapmf\<close> of the
  fuzzy-logic library, which is not among the sources). Section 4.1: 0 for \<open>x \<le> a\<close> or
  \<open>x \<ge> d\<close>, a linear ramp from \<open>a\<close> to \<open>b\<close>, 1 for \<open>b \<le> x \<le> c\<close>, a linear ramp
  from \<open>c\<close> to \<open>d\<close>. Where \<open>a = b\<close> or \<open>c = d\<close> the ramp is a step at that edge, so
  the edge itself lies on the plateau: the plateau clause is tested first.
\<close>

definition trapmf :: "real \<Rightarrow> real \<times> real \<times> real \<times> real \<Rightarrow> real" where
  "trapmf x abcd =
     (case abcd of (a, b, c, d) \<Rightarrow>
        if b \<le> x \<and> x \<le> c then 1
        else if x \<le> a \<or> d \<le> x then 0
        else if x < b then (x - a) / (b - a)
        else (d - x) / (d - c))"

text \<open>
  Modelled from the spec: the triangle membership function (\<^verbatim>\<open>fuzz.trimf\<close> of the
  fuzzy-logic library, which is not among the sources). Section 4.1: 0 at \<open>x \<le> a\<close> or
  \<open>x \<ge> c\<close>, a linear ramp to 1 at \<open>x = b\<close>, a linear ramp down to \<open>x = c\<close>.
\<close>

definition trimf :: "real \<Rightarrow> real \<times> real \<times> real \<Rightarrow> real" where
  "trimf x abc =
     (case abc of (a, b, c) \<Rightarrow>
        if x \<le> a \<or> c \<le> x then 0
        else if x \<le> b then (x - a) / (b - a)
        else (c - x) / (c - b))"

text \<open>The membership functions of \<^verbatim>\<open>motion\<close> (lines 24 to 26).\<close>

fun motion_mf :: "motion_term \<Rightarrow> real \<Rightarrow> real" where
  "motion_mf MotionSmall x = trapmf x (0, 0, 3, 8)"
| "motion_mf MotionMedium x = trapmf x (5, 12, 18, 25)"
| "motion_mf MotionLarge x = trapmf x (20, 40, 100, 100)"

text \<open>The membership functions of \<^verbatim>\<open>confidence\<close> (lines 29 to 31).\<close>

fun confidence_mf :: "confidence_term \<Rightarrow> real \<Rightarrow> real" where
  "confidence_mf ConfLow x = trapmf x (0, 0, 3 / 10, 5 / 10)"
| "confidence_mf ConfMedium x = trapmf x (4 / 10, 5 / 10, 6 / 10, 7 / 10)"
| "confidence_mf ConfHigh x = trapmf x (6 / 10, 75 / 100, 1, 1)"

text \<open>The membership functions of \<^verbatim>\<open>alpha\<close> (lines 34 to 38).\<close>

fun alpha_mf :: "alpha_term \<Rightarrow> real \<Rightarrow> real" where
  "alpha_mf VerySmall x = trimf x (0, 5 / 100, 15 / 100)"
| "alpha_mf Small x = trimf x (1 / 10, 2 / 10, 3 / 10)"
| "alpha_mf Medium x = trimf x (25 / 100, 4 / 10, 55 / 100)"
| "alpha_mf Large x = trimf x (5 / 10, 7 / 10, 85 / 100)"
| "alpha_mf VeryLarge x = trimf x (8 / 10, 95 / 100, 1)"

text \<open>The rule table \<^verbatim>\<open>self.rules\<close> (lines 41 to 56), in the order of the source.\<close>

definition rules :: "(motion_term \<times> confidence_term \<times> alpha_term) list" where
  "rules =
     [(MotionSmall, ConfHigh, VerySmall),
      (MotionSmall, ConfMedium, Small),
      (MotionSmall, ConfLow, Small),
      (MotionMedium, ConfHigh, Medium),
      (MotionMedium, ConfMedium, Small),
      (MotionMedium, ConfLow, VerySmall),
      (MotionLarge, ConfHigh, VeryLarge),
      (MotionLarge, ConfMedium, Large),
      (MotionLarge, ConfLow, Medium)]"

text \<open>The universe of \<^verbatim>\<open>alpha\<close> (line 21): \<^verbatim>\<open>np.arange(0, 1.01, 0.01)\<close>, 101 points.\<close>

definition alpha_universe :: "real list" where
  "alpha_universe = map (\<lambda>i. real i / 100) [0..<101]"

text \<open>
  Modelled from the spec: the inference procedure of section 4.2 (the library's
  \<^verbatim>\<open>ControlSystemSimulation.compute\<close>, which is not among the sources). Step 2: the
  firing strength of a rule is the minimum of the degrees of its two antecedent terms.
\<close>

definition firing_strength ::
  "real \<Rightarrow> real \<Rightarrow> motion_term \<times> confidence_term \<times> alpha_term \<Rightarrow> real" where
  "firing_strength m c r = (case r of (mt, ct, ot) \<Rightarrow> min (motion_mf mt m) (confidence_mf ct c))"

text \<open>
  Modelled from the spec: step 3 of section 4.2 (part of the absent library). The
  aggregated strength of an alpha term is the maximum over the rules that conclude that
  term, and 0 when no rule names it.
\<close>

definition aggregated_strength :: "real \<Rightarrow> real \<Rightarrow> alpha_term \<Rightarrow> real" where
  "aggregated_strength m c t =
     foldr max (map (firing_strength m c) (filter (\<lambda>r. snd (snd r) = t) rules)) 0"

text \<open>
  Modelled from the spec: step 4 of section 4.2 (part of the absent library). The
  aggregate output set is the pointwise maximum, over the five terms, of the term's
  membership function clipped at its aggregated strength.
\<close>

definition aggregate :: "real \<Rightarrow> real \<Rightarrow> real \<Rightarrow> real" where
  "aggregate m c x =
     max (min (aggregated_strength m c VerySmall) (alpha_mf VerySmall x))
    (max (min (aggregated_strength m c Small) (alpha_mf Small x))
    (max (min (aggregated_strength m c Medium) (alpha_mf Medium x))
    (max (min (aggregated_strength m c Large) (alpha_mf Large x))
         (min (aggregated_strength m c VeryLarge) (alpha_mf VeryLarge x)))))"

text \<open>The two sums of the centroid, over the sample points of the alpha universe.\<close>

definition total_membership :: "real \<Rightarrow> real \<Rightarrow> real" where
  "total_membership m c = sum_list (map (aggregate m c) alpha_universe)"

definition weighted_membership :: "real \<Rightarrow> real \<Rightarrow> real" where
  "weighted_membership m c = sum_list (map (\<lambda>x. x * aggregate m c x) alpha_universe)"

text \<open>
  Modelled from the spec: steps 4 and 5 of section 4.2 (part of the absent library). The
  centroid is the quotient of the two sums; with a zero total the computation fails,
  which the caller's \<^verbatim>\<open>except\<close> turns into the fallback.
\<close>

definition fuzzy_engine :: engine where
  "fuzzy_engine m c =
     (if total_membership m c = 0 then None
      else Some (weighted_membership m c / total_membership m c))"

text \<open>The \<open>infer\<close> of the spec: the engine under the \<^verbatim>\<open>try\<close>/\<^verbatim>\<open>except\<close> of \<open>smooth\<close>.\<close>

definition infer :: "real \<Rightarrow> real \<Rightarrow> real" where
  "infer m c = infer_alpha fuzzy_engine m c"

section \<open>Call sequences and state predicates\<close>

text \<open>A caller's use of one smoother object: a sequence of \<^verbatim>\<open>smooth\<close> and \<^verbatim>\<open>reset\<close> calls.\<close>

datatype call = Smooth bbox real | Reset

text \<open>One call: what it returns (\<^verbatim>\<open>reset\<close> returns nothing) and the state it leaves.\<close>

fun step ::
  "engine \<Rightarrow> smoother_state \<Rightarrow> call \<Rightarrow> (py_error + bbox) option \<times> smoother_state" where
  "step eng s (Smooth bbox conf) = (Some (fst (smooth eng s bbox conf)), snd (smooth eng s bbox conf))"
| "step eng s Reset = (None, reset s)"

text \<open>The calls of a sequence in order, each with its return value and the state after it.\<close>

fun trace ::
  "engine \<Rightarrow> smoother_state \<Rightarrow> call list \<Rightarrow> ((py_error + bbox) option \<times> smoother_state) list" where
  "trace eng s [] = []"
| "trace eng s (c # cs) = step eng s c # trace eng (snd (step eng s c)) cs"

text \<open>The two states of the spec: no field present, all four fields present.\<close>

definition uninitialized :: "smoother_state \<Rightarrow> bool" where
  "uninitialized s \<longleftrightarrow>
     prev_cx s = None \<and> prev_cy s = None \<and> prev_w s = None \<and> prev_h s = None"

definition tracking :: "smoother_state \<Rightarrow> bool" where
  "tracking s \<longleftrightarrow>
     (case (prev_cx s, prev_cy s, prev_w s, prev_h s) of
        (Some _, Some _, Some _, Some _) \<Rightarrow> True
      | _ \<Rightarrow> False)"

definition never_partial :: "smoother_state \<Rightarrow> bool" where
  "never_partial s \<longleftrightarrow> uninitialized s \<or> tracking s"

text \<open>A well-formed box has its first corner above and to the left of the second.\<close>

definition well_formed :: "bbox \<Rightarrow> bool" where
  "well_formed bbox = (case bbox of (x1, y1, x2, y2) \<Rightarrow> x1 \<le> x2 \<and> y1 \<le> y2)"

fun well_formed_call :: "call \<Rightarrow> bool" where
  "well_formed_call (Smooth bbox conf) = well_formed bbox"
| "well_formed_call Reset = True"

text \<open>What a call returned is acceptable: nothing (a reset), or a well-formed box; an
  exception is not.\<close>

fun well_formed_output :: "(py_error + bbox) option \<Rightarrow> bool" where
  "well_formed_output None = True"
| "well_formed_output (Some (Inr bbox)) = well_formed bbox"
| "well_formed_output (Some (Inl e)) = False"

text \<open>The stored width and height, where present, are not negative.\<close>

definition size_nonneg :: "smoother_state \<Rightarrow> bool" where
  "size_nonneg s \<longleftrightarrow>
     (case prev_w s of None \<Rightarrow> True | Some w \<Rightarrow> 0 \<le> w)
     \<and> (case prev_h s of None \<Rightarrow> True | Some h \<Rightarrow> 0 \<le> h)"

text \<open>The centre and size of a box, computed as lines 89 to 92 compute them.\<close>

definition bbox_center :: "bbox \<Rightarrow> real \<times> real" where
  "bbox_center bbox = (case bbox of (x1, y1, x2, y2) \<Rightarrow> ((x1 + x2) / 2, (y1 + y2) / 2))"

definition bbox_size :: "bbox \<Rightarrow> real \<times> real" where
  "bbox_size bbox = (case bbox of (x1, y1, x2, y2) \<Rightarrow> (x2 - x1, y2 - y1))"

section \<open>The smoother on floats\<close>




text \<open>The largest finite double, \<open>(2 - 2\<^sup>-\<^sup>5\<^sup>2) \<times> 2\<^sup>1\<^sup>0\<^sup>2\<^sup>3\<close>.\<close>

definition max_float :: real where
  "max_float = 2 ^ 1024 - 2 ^ 971"

























subsection \<open>Call sequences on floats\<close>













section \<open>Facts about the numeric helpers\<close>

lemma py_int_mono:
  assumes "x \<le> y"
  shows "py_int x \<le> py_int y"
proof (cases "0 \<le> x")
  case True
  with assms have "0 \<le> y" by simp
  with True assms show ?thesis by (simp add: py_int_def floor_mono)
next
  case False
  show ?thesis
  proof (cases "0 \<le> y")
    case True
    from False have "\<lceil>x\<rceil> \<le> 0" by (simp add: ceiling_le_iff)
    moreover from True have "0 \<le> \<lfloor>y\<rfloor>" by simp
    ultimately have le: "\<lceil>x\<rceil> \<le> \<lfloor>y\<rfloor>" by (rule order_trans)
    have "py_int x = \<lceil>x\<rceil>" using False by (simp add: py_int_def)
    moreover have "py_int y = \<lfloor>y\<rfloor>" using True by (simp add: py_int_def)
    ultimately show ?thesis using le by (simp only:)
  next
    case y: False
    with False assms show ?thesis by (simp add: py_int_def ceiling_mono)
  qed
qed

lemma py_int_spread: "0 \<le> w \<Longrightarrow> py_int (c - w / 2) \<le> py_int (c + w / 2)"
  by (rule py_int_mono) simp

lemma py_int_eqI: "0 \<le> x \<Longrightarrow> of_int k \<le> x \<Longrightarrow> x < of_int k + 1 \<Longrightarrow> py_int x = k"
  by (simp add: py_int_def floor_unique)

lemma half_not_int: "real_of_int k \<noteq> 201 / 2"
proof
  assume "real_of_int k = 201 / 2"
  then have "real_of_int (2 * k) = real_of_int 201" by simp
  then have "2 * k = 201" by (simp only: of_int_eq_iff)
  then show False by presburger
qed

section \<open>The two branches of \<open>smooth\<close>\<close>

lemma smooth_cold:
  assumes "prev_cx s = None"
  shows "smooth eng s (x1, y1, x2, y2) conf =
     (Inr (x1, y1, x2, y2),
      s\<lparr>prev_cx := Some ((x1 + x2) / 2), prev_cy := Some ((y1 + y2) / 2),
        prev_w := Some (x2 - x1), prev_h := Some (y2 - y1)\<rparr>)"
  using assms by (simp add: smooth_def)

lemma smooth_tracking:
  assumes "prev_cx s = Some pcx" "prev_cy s = Some pcy" "prev_w s = Some pw" "prev_h s = Some ph"
  shows "smooth eng s (x1, y1, x2, y2) conf =
    (let alpha = infer_alpha eng
                   (clip (sqrt (((x1 + x2) / 2 - pcx)\<^sup>2 + ((y1 + y2) / 2 - pcy)\<^sup>2)) 0 100)
                   (clip conf 0 1);
         new_cx = pcx + alpha * ((x1 + x2) / 2 - pcx);
         new_cy = pcy + alpha * ((y1 + y2) / 2 - pcy);
         new_w = pw + (1 / 2) * ((x2 - x1) - pw);
         new_h = ph + (1 / 2) * ((y2 - y1) - ph)
     in (Inr (of_int (py_int (new_cx - new_w / 2)), of_int (py_int (new_cy - new_h / 2)),
              of_int (py_int (new_cx + new_w / 2)), of_int (py_int (new_cy + new_h / 2))),
         \<lparr>prev_cx = Some new_cx, prev_cy = Some new_cy,
          prev_w = Some new_w, prev_h = Some new_h\<rparr>))"
  using assms by (simp add: smooth_def Let_def)

lemma trackingE:
  assumes "tracking s"
  obtains a b c d where
    "prev_cx s = Some a" "prev_cy s = Some b" "prev_w s = Some c" "prev_h s = Some d"
  using assms by (auto simp: tracking_def split: option.splits)

lemma after_first_call:
  "snd (smooth eng init_state (100, 100, 200, 200) (9 / 10)) =
     \<lparr>prev_cx = Some 150, prev_cy = Some 150, prev_w = Some 100, prev_h = Some 100\<rparr>"
  by (simp add: smooth_def init_state_def)

section \<open>Facts about the inference engine\<close>

subsection \<open>Membership degrees and the aggregate\<close>

lemma foldr_max_nonneg: "0 \<le> foldr max xs (0::real)"
  by (induction xs) auto

lemma foldr_max_ge: "x \<in> set xs \<Longrightarrow> x \<le> foldr max xs (0::real)"
  by (induction xs) auto

lemma aggregated_strength_nonneg: "0 \<le> aggregated_strength m c t"
  unfolding aggregated_strength_def by (rule foldr_max_nonneg)

lemma alpha_mf_nonneg: "0 \<le> alpha_mf t x"
  by (cases t) (auto simp: trimf_def)

lemma alpha_mf_le_one: "alpha_mf t x \<le> 1"
  by (cases t) (auto simp: trimf_def)

lemma aggregate_nonneg: "0 \<le> aggregate m c x"
  unfolding aggregate_def
  using aggregated_strength_nonneg [of m c VerySmall] alpha_mf_nonneg [of VerySmall x]
  by (simp add: le_max_iff_disj)

lemma clipped_le_aggregate:
  "min (aggregated_strength m c t) (alpha_mf t x) \<le> aggregate m c x"
  by (cases t) (simp_all add: aggregate_def le_max_iff_disj)

lemma alpha_universe_range: "x \<in> set alpha_universe \<Longrightarrow> 0 \<le> x \<and> x \<le> 1"
  by (auto simp: alpha_universe_def)

lemma alpha_universe_member: "i < 101 \<Longrightarrow> real i / 100 \<in> set alpha_universe"
  by (simp add: alpha_universe_def)

subsection \<open>Sums over the sample points\<close>

lemma sum_list_map_nonneg:
  fixes f :: "real \<Rightarrow> real"
  shows "(\<And>x. x \<in> set xs \<Longrightarrow> 0 \<le> f x) \<Longrightarrow> 0 \<le> sum_list (map f xs)"
  by (induction xs) auto

lemma sum_list_map_pos:
  fixes f :: "real \<Rightarrow> real"
  assumes "\<And>x. x \<in> set xs \<Longrightarrow> 0 \<le> f x" and "y \<in> set xs" and "0 < f y"
  shows "0 < sum_list (map f xs)"
  using assms
proof (induction xs)
  case Nil
  then show ?case by simp
next
  case (Cons a xs)
  have rest: "0 \<le> sum_list (map f xs)"
    by (rule sum_list_map_nonneg) (simp add: Cons.prems(1))
  have hd: "0 \<le> f a" by (simp add: Cons.prems(1))
  show ?case
  proof (cases "y = a")
    case True
    with Cons.prems(3) rest show ?thesis by simp
  next
    case False
    with Cons.prems(2) have "y \<in> set xs" by simp
    then have "0 < sum_list (map f xs)"
      using Cons.IH Cons.prems(1,3) by simp
    with hd show ?thesis by simp
  qed
qed

lemma weighted_le:
  fixes f :: "real \<Rightarrow> real"
  assumes "\<And>x. x \<in> set xs \<Longrightarrow> 0 \<le> f x"
    and "\<And>x. x \<in> set xs \<Longrightarrow> 0 < f x \<Longrightarrow> x \<le> hi"
  shows "sum_list (map (\<lambda>x. x * f x) xs) \<le> hi * sum_list (map f xs)"
  using assms
proof (induction xs)
  case Nil
  then show ?case by simp
next
  case (Cons a xs)
  have "a * f a \<le> hi * f a"
  proof (cases "f a = 0")
    case True
    then show ?thesis by simp
  next
    case False
    with Cons.prems(1) [of a] have pos: "0 < f a" by simp
    with Cons.prems(2) [of a] have "a \<le> hi" by simp
    with pos show ?thesis by simp
  qed
  moreover have "sum_list (map (\<lambda>x. x * f x) xs) \<le> hi * sum_list (map f xs)"
    using Cons.IH Cons.prems by simp
  ultimately show ?case by (simp add: algebra_simps)
qed

lemma weighted_ge:
  fixes f :: "real \<Rightarrow> real"
  assumes "\<And>x. x \<in> set xs \<Longrightarrow> 0 \<le> f x"
    and "\<And>x. x \<in> set xs \<Longrightarrow> 0 < f x \<Longrightarrow> lo \<le> x"
  shows "lo * sum_list (map f xs) \<le> sum_list (map (\<lambda>x. x * f x) xs)"
  using assms
proof (induction xs)
  case Nil
  then show ?case by simp
next
  case (Cons a xs)
  have "lo * f a \<le> a * f a"
  proof (cases "f a = 0")
    case True
    then show ?thesis by simp
  next
    case False
    with Cons.prems(1) [of a] have pos: "0 < f a" by simp
    with Cons.prems(2) [of a] have "lo \<le> a" by simp
    with pos show ?thesis by simp
  qed
  moreover have "lo * sum_list (map f xs) \<le> sum_list (map (\<lambda>x. x * f x) xs)"
    using Cons.IH Cons.prems by simp
  ultimately show ?case by (simp add: algebra_simps)
qed

lemma total_membership_nonneg: "0 \<le> total_membership m c"
  unfolding total_membership_def by (rule sum_list_map_nonneg) (rule aggregate_nonneg)

subsection \<open>The centroid lies where the aggregate is positive\<close>

lemma fuzzy_engine_bounds:
  assumes "fuzzy_engine m c = Some a"
    and "\<And>x. x \<in> set alpha_universe \<Longrightarrow> 0 < aggregate m c x \<Longrightarrow> lo \<le> x \<and> x \<le> hi"
  shows "lo \<le> a \<and> a \<le> hi"
proof -
  from assms(1) have nz: "total_membership m c \<noteq> 0"
    and a: "a = weighted_membership m c / total_membership m c"
    by (auto simp: fuzzy_engine_def split: if_splits)
  from nz total_membership_nonneg [of m c] have pos: "0 < total_membership m c" by simp
  have "weighted_membership m c \<le> hi * total_membership m c"
    unfolding weighted_membership_def total_membership_def
    by (rule weighted_le) (simp_all add: aggregate_nonneg assms(2))
  moreover have "lo * total_membership m c \<le> weighted_membership m c"
    unfolding weighted_membership_def total_membership_def
    by (rule weighted_ge) (simp_all add: aggregate_nonneg assms(2))
  ultimately show ?thesis
    using pos by (simp add: a pos_le_divide_eq pos_divide_le_eq)
qed

lemma fuzzy_engine_defined:
  assumes "x \<in> set alpha_universe" and "0 < aggregate m c x"
  shows "\<exists>a. fuzzy_engine m c = Some a"
proof -
  have "0 < total_membership m c"
    unfolding total_membership_def
    by (rule sum_list_map_pos [where y = x]) (simp_all add: aggregate_nonneg assms)
  then show ?thesis by (simp add: fuzzy_engine_def)
qed

subsection \<open>Small motion with high confidence, large motion with high confidence\<close>

lemma still_region_aggregate:
  assumes "0 \<le> m" "m \<le> 3" "3 / 4 \<le> c" "c \<le> 1"
  shows "aggregate m c x = alpha_mf VerySmall x"
proof -
  have s: "aggregated_strength m c VerySmall = 1" "aggregated_strength m c Small = 0"
    "aggregated_strength m c Medium = 0" "aggregated_strength m c Large = 0"
    "aggregated_strength m c VeryLarge = 0"
    using assms
    by (simp_all add: aggregated_strength_def rules_def firing_strength_def trapmf_def)
  show ?thesis
    using alpha_mf_nonneg [of VerySmall x] alpha_mf_le_one [of VerySmall x]
      alpha_mf_nonneg [of Small x] alpha_mf_nonneg [of Medium x]
      alpha_mf_nonneg [of Large x] alpha_mf_nonneg [of VeryLarge x]
    unfolding aggregate_def s by simp
qed

lemma fast_region_aggregate:
  assumes "40 \<le> m" "m \<le> 100" "3 / 4 \<le> c" "c \<le> 1"
  shows "aggregate m c x = alpha_mf VeryLarge x"
proof -
  have s: "aggregated_strength m c VerySmall = 0" "aggregated_strength m c Small = 0"
    "aggregated_strength m c Medium = 0" "aggregated_strength m c Large = 0"
    "aggregated_strength m c VeryLarge = 1"
    using assms
    by (simp_all add: aggregated_strength_def rules_def firing_strength_def trapmf_def)
  show ?thesis
    using alpha_mf_nonneg [of VeryLarge x] alpha_mf_le_one [of VeryLarge x]
      alpha_mf_nonneg [of Small x] alpha_mf_nonneg [of Medium x]
      alpha_mf_nonneg [of Large x] alpha_mf_nonneg [of VerySmall x]
    unfolding aggregate_def s by simp
qed

lemma still_region_infer:
  assumes "0 \<le> m" "m \<le> 3" "3 / 4 \<le> c" "c \<le> 1"
  shows "0 \<le> infer m c \<and> infer m c \<le> 15 / 100"
proof -
  have agg: "\<And>x. aggregate m c x = alpha_mf VerySmall x"
    using assms by (rule still_region_aggregate)
  have "real 5 / 100 \<in> set alpha_universe" by (rule alpha_universe_member) simp
  moreover have "0 < aggregate m c (real 5 / 100)" by (simp add: agg trimf_def)
  ultimately obtain a where a: "fuzzy_engine m c = Some a"
    using fuzzy_engine_defined by blast
  have "0 \<le> a \<and> a \<le> 15 / 100"
    using a
  proof (rule fuzzy_engine_bounds)
    fix x assume "x \<in> set alpha_universe" and "0 < aggregate m c x"
    then show "0 \<le> x \<and> x \<le> 15 / 100"
      by (simp add: agg trimf_def split: if_splits)
  qed
  with a show ?thesis by (simp add: infer_def infer_alpha_def)
qed

lemma fast_region_infer:
  assumes "40 \<le> m" "m \<le> 100" "3 / 4 \<le> c" "c \<le> 1"
  shows "8 / 10 \<le> infer m c \<and> infer m c \<le> 1"
proof -
  have agg: "\<And>x. aggregate m c x = alpha_mf VeryLarge x"
    using assms by (rule fast_region_aggregate)
  have "real 95 / 100 \<in> set alpha_universe" by (rule alpha_universe_member) simp
  moreover have "0 < aggregate m c (real 95 / 100)" by (simp add: agg trimf_def)
  ultimately obtain a where a: "fuzzy_engine m c = Some a"
    using fuzzy_engine_defined by blast
  have "8 / 10 \<le> a \<and> a \<le> 1"
    using a
  proof (rule fuzzy_engine_bounds)
    fix x assume "x \<in> set alpha_universe" and "0 < aggregate m c x"
    then show "8 / 10 \<le> x \<and> x \<le> 1"
      by (simp add: agg trimf_def split: if_splits)
  qed
  with a show ?thesis by (simp add: infer_def infer_alpha_def)
qed

subsection \<open>Inside the clamped domains the engine yields a value\<close>

lemma some_motion_term:
  assumes "0 \<le> m" "m \<le> 100"
  shows "\<exists>t. 0 < motion_mf t m"
proof -
  consider "m < 8" | "8 \<le> m" "m < 25" | "25 \<le> m" by linarith
  then show ?thesis
  proof cases
    case 1
    with assms have "0 < motion_mf MotionSmall m" by (simp add: trapmf_def)
    then show ?thesis ..
  next
    case 2
    then have "0 < motion_mf MotionMedium m" by (simp add: trapmf_def)
    then show ?thesis ..
  next
    case 3
    with assms have "0 < motion_mf MotionLarge m" by (simp add: trapmf_def)
    then show ?thesis ..
  qed
qed

lemma some_confidence_term:
  assumes "0 \<le> c" "c \<le> 1"
  shows "\<exists>t. 0 < confidence_mf t c"
proof -
  consider "c < 5 / 10" | "5 / 10 \<le> c" "c < 7 / 10" | "7 / 10 \<le> c" by linarith
  then show ?thesis
  proof cases
    case 1
    with assms have "0 < confidence_mf ConfLow c" by (simp add: trapmf_def)
    then show ?thesis ..
  next
    case 2
    then have "0 < confidence_mf ConfMedium c" by (simp add: trapmf_def)
    then show ?thesis ..
  next
    case 3
    with assms have "0 < confidence_mf ConfHigh c" by (simp add: trapmf_def)
    then show ?thesis ..
  qed
qed

lemma rules_complete: "\<exists>t. (mt, ct, t) \<in> set rules"
  by (cases mt; cases ct) (simp_all add: rules_def)

lemma firing_le_aggregated:
  assumes "(mt, ct, t) \<in> set rules"
  shows "firing_strength m c (mt, ct, t) \<le> aggregated_strength m c t"
  unfolding aggregated_strength_def
  by (rule foldr_max_ge) (use assms in \<open>auto simp: image_iff\<close>)

lemma alpha_term_peak: "\<exists>x \<in> set alpha_universe. alpha_mf t x = 1"
proof (cases t)
  case VerySmall
  have "real 5 / 100 \<in> set alpha_universe" by (rule alpha_universe_member) simp
  moreover have "alpha_mf t (real 5 / 100) = 1" by (simp add: VerySmall trimf_def)
  ultimately show ?thesis ..
next
  case Small
  have "real 20 / 100 \<in> set alpha_universe" by (rule alpha_universe_member) simp
  moreover have "alpha_mf t (real 20 / 100) = 1" by (simp add: Small trimf_def)
  ultimately show ?thesis ..
next
  case Medium
  have "real 40 / 100 \<in> set alpha_universe" by (rule alpha_universe_member) simp
  moreover have "alpha_mf t (real 40 / 100) = 1" by (simp add: Medium trimf_def)
  ultimately show ?thesis ..
next
  case Large
  have "real 70 / 100 \<in> set alpha_universe" by (rule alpha_universe_member) simp
  moreover have "alpha_mf t (real 70 / 100) = 1" by (simp add: Large trimf_def)
  ultimately show ?thesis ..
next
  case VeryLarge
  have "real 95 / 100 \<in> set alpha_universe" by (rule alpha_universe_member) simp
  moreover have "alpha_mf t (real 95 / 100) = 1" by (simp add: VeryLarge trimf_def)
  ultimately show ?thesis ..
qed

text \<open>
  Inside the clamped domains some rule always fires, so the engine always yields a value
  there: the zero total is reached only by inputs below or above the domains.
\<close>

lemma fuzzy_engine_total_in_domain:
  assumes "0 \<le> m" "m \<le> 100" "0 \<le> c" "c \<le> 1"
  shows "\<exists>a. fuzzy_engine m c = Some a"
proof -
  obtain mt where mt: "0 < motion_mf mt m" using some_motion_term assms by blast
  obtain ct where ct: "0 < confidence_mf ct c" using some_confidence_term assms by blast
  obtain t where r: "(mt, ct, t) \<in> set rules" using rules_complete by blast
  have "0 < firing_strength m c (mt, ct, t)"
    using mt ct by (simp add: firing_strength_def)
  with firing_le_aggregated [OF r, of m c] have s: "0 < aggregated_strength m c t" by simp
  obtain x where x: "x \<in> set alpha_universe" "alpha_mf t x = 1"
    using alpha_term_peak by blast
  have "0 < min (aggregated_strength m c t) (alpha_mf t x)" using s x by simp
  then have "0 < aggregate m c x" by (rule less_le_trans) (rule clipped_le_aggregate)
  with x(1) show ?thesis by (rule fuzzy_engine_defined)
qed

section \<open>Invariants of call sequences\<close>

lemma smooth_tracking_state:
  assumes "never_partial s"
  shows "tracking (snd (smooth eng s bbox conf))"
proof -
  obtain x1 y1 x2 y2 where b: "bbox = (x1, y1, x2, y2)" by (cases bbox) auto
  from assms consider "uninitialized s" | "tracking s" by (auto simp: never_partial_def)
  then show ?thesis
  proof cases
    case 1
    then have "prev_cx s = None" by (simp add: uninitialized_def)
    then show ?thesis unfolding b by (simp add: smooth_cold tracking_def)
  next
    case 2
    then obtain pcx pcy pw ph where
      "prev_cx s = Some pcx" "prev_cy s = Some pcy" "prev_w s = Some pw" "prev_h s = Some ph"
      by (rule trackingE)
    then show ?thesis unfolding b by (simp add: smooth_tracking Let_def tracking_def)
  qed
qed

lemma step_never_partial: "never_partial s \<Longrightarrow> never_partial (snd (step eng s c))"
proof (cases c)
  case (Smooth bbox conf)
  assume "never_partial s"
  then have "tracking (snd (smooth eng s bbox conf))" by (rule smooth_tracking_state)
  with Smooth show ?thesis by (simp add: never_partial_def)
next
  case Reset
  then show ?thesis by (simp add: never_partial_def uninitialized_def reset_def)
qed

lemma trace_never_partial:
  "never_partial s \<Longrightarrow> list_all (\<lambda>(r, s'). never_partial s') (trace eng s cs)"
proof (induction cs arbitrary: s)
  case Nil
  then show ?case by simp
next
  case (Cons c cs)
  from Cons.prems have n: "never_partial (snd (step eng s c))" by (rule step_never_partial)
  with Cons.IH show ?case by (simp add: case_prod_beta)
qed

lemma smooth_well_formed:
  assumes "never_partial s" "size_nonneg s" "well_formed bbox"
  shows "size_nonneg (snd (smooth eng s bbox conf))
     \<and> well_formed_output (Some (fst (smooth eng s bbox conf)))"
proof -
  obtain x1 y1 x2 y2 where b: "bbox = (x1, y1, x2, y2)" by (cases bbox) auto
  from assms(3) have wf: "x1 \<le> x2" "y1 \<le> y2" by (simp_all add: b well_formed_def)
  from assms(1) consider "uninitialized s" | "tracking s" by (auto simp: never_partial_def)
  then show ?thesis
  proof cases
    case 1
    then have "prev_cx s = None" by (simp add: uninitialized_def)
    then show ?thesis
      unfolding b using wf by (simp add: smooth_cold size_nonneg_def well_formed_def)
  next
    case 2
    then obtain pcx pcy pw ph where
      f: "prev_cx s = Some pcx" "prev_cy s = Some pcy" "prev_w s = Some pw" "prev_h s = Some ph"
      by (rule trackingE)
    from assms(2) f have nn: "0 \<le> pw" "0 \<le> ph" by (simp_all add: size_nonneg_def)
    have nw: "0 \<le> pw + (x2 - x1 - pw) / 2"
      using nn(1) wf(1) by argo
    have nh: "0 \<le> ph + (y2 - y1 - ph) / 2"
      using nn(2) wf(2) by argo
    show ?thesis
      unfolding b using nw nh
      by (simp add: smooth_tracking [OF f] Let_def size_nonneg_def well_formed_def py_int_spread)
  qed
qed

lemma step_well_formed:
  assumes "never_partial s" "size_nonneg s" "well_formed_call c"
  shows "size_nonneg (snd (step eng s c)) \<and> well_formed_output (fst (step eng s c))"
proof (cases c)
  case (Smooth bbox conf)
  with assms smooth_well_formed [of s bbox eng conf] show ?thesis by simp
next
  case Reset
  then show ?thesis by (simp add: reset_def size_nonneg_def)
qed

lemma trace_well_formed:
  assumes "never_partial s" "size_nonneg s" "list_all well_formed_call cs"
  shows "list_all (\<lambda>(r, s'). size_nonneg s' \<and> well_formed_output r) (trace eng s cs)"
  using assms
proof (induction cs arbitrary: s)
  case Nil
  then show ?case by simp
next
  case (Cons c cs)
  from Cons.prems have c: "well_formed_call c" and cs: "list_all well_formed_call cs"
    by simp_all
  have here: "size_nonneg (snd (step eng s c)) \<and> well_formed_output (fst (step eng s c))"
    using Cons.prems(1,2) c by (rule step_well_formed)
  have np: "never_partial (snd (step eng s c))"
    using Cons.prems(1) by (rule step_never_partial)
  have "list_all (\<lambda>(r, s'). size_nonneg s' \<and> well_formed_output r)
          (trace eng (snd (step eng s c)) cs)"
    using np here cs by (intro Cons.IH) simp_all
  with here show ?case by (simp add: case_prod_unfold)
qed

text \<open>
  A Tracking-state call whose stored width is a half-integer: the returned corners are
  integers, so the width recomputed from them is not the stored one, whatever the engine.
\<close>

lemma stored_size_differs:
  "\<exists>s bbox conf r s'. tracking s \<and> smooth eng s bbox conf = (Inr r, s')
       \<and> prev_w s' \<noteq> Some (fst (bbox_size r))"
proof -
  let ?s = "\<lparr>prev_cx = Some 150, prev_cy = Some 150, prev_w = Some 100, prev_h = Some 100\<rparr>"
  let ?out = "smooth eng ?s (100, 100, 201, 200) (9 / 10)"
  have t: "tracking ?s" by (simp add: tracking_def)
  obtain i1 j1 i2 j2 :: int and a where
    out: "?out = (Inr (of_int i1, of_int j1, of_int i2, of_int j2),
       \<lparr>prev_cx = Some a, prev_cy = Some 150, prev_w = Some (201 / 2), prev_h = Some 100\<rparr>)"
    by (simp add: smooth_tracking [where pcx = 150 and pcy = 150 and pw = 100 and ph = 100]
        Let_def)
  have "real_of_int i2 - real_of_int i1 = real_of_int (i2 - i1)" by simp
  then have "Some (201 / 2) \<noteq> Some (fst (bbox_size (of_int i1, of_int j1, of_int i2, of_int j2)))"
    using half_not_int [of "i2 - i1"] by (simp add: bbox_size_def)
  with t out show ?thesis by (metis smoother_state.select_convs(3))
qed

section \<open>Facts about the smoother on floats\<close>

subsection \<open>Operations on finite values that stay in range\<close>




lemma max_float_pos: "0 < max_float"
  by (simp add: max_float_def)















subsection \<open>The cold-start call\<close>







subsection \<open>The steps of a Tracking-state call\<close>










subsection \<open>Call sequences within the range\<close>






section \<open>The claims\<close>

subsection \<open>The Tracking-state step\<close>

text \<open>
  C1, as amended. For every call to \<open>smooth\<close> in the Tracking state (all four previous
  values present), with any engine: alpha is the engine's value at the clipped motion
  magnitude and the clipped confidence (0.3 where the engine fails); the new centre is
  the old one plus alpha times the difference to the raw centre, per axis; the new size
  is the old one plus one half of the difference to the raw size, per axis; and the
  returned corners are \<open>int\<close> of centre minus or plus half the size, that is, those
  values truncated towards zero (not rounded to the nearest integer).
\<close>

theorem smooth_tracking_step:
  assumes "prev_cx s = Some pcx" "prev_cy s = Some pcy" "prev_w s = Some pw" "prev_h s = Some ph"
  shows "smooth eng s (x1, y1, x2, y2) conf =
    (let alpha = infer_alpha eng
                   (clip (sqrt (((x1 + x2) / 2 - pcx)\<^sup>2 + ((y1 + y2) / 2 - pcy)\<^sup>2)) 0 100)
                   (clip conf 0 1);
         new_cx = pcx + alpha * ((x1 + x2) / 2 - pcx);
         new_cy = pcy + alpha * ((y1 + y2) / 2 - pcy);
         new_w = pw + (1 / 2) * ((x2 - x1) - pw);
         new_h = ph + (1 / 2) * ((y2 - y1) - ph)
     in (Inr (of_int (py_int (new_cx - new_w / 2)), of_int (py_int (new_cy - new_h / 2)),
              of_int (py_int (new_cx + new_w / 2)), of_int (py_int (new_cy + new_h / 2))),
         \<lparr>prev_cx = Some new_cx, prev_cy = Some new_cy,
          prev_w = Some new_w, prev_h = Some new_h\<rparr>))"
  using assms by (rule smooth_tracking)

text \<open>
  The step at a concrete state: the box grows by one pixel on each side around the same
  centre, so the motion is zero and the corners are \<open>int 99.5\<close> and \<open>int 200.5\<close>.
\<close>

theorem smooth_tracking_step_witness:
  "prev_cx \<lparr>prev_cx = Some 150, prev_cy = Some 150, prev_w = Some 100, prev_h = Some 100\<rparr>
     = Some 150
   \<and> prev_cy \<lparr>prev_cx = Some 150, prev_cy = Some 150, prev_w = Some 100, prev_h = Some 100\<rparr>
     = Some 150
   \<and> prev_w \<lparr>prev_cx = Some 150, prev_cy = Some 150, prev_w = Some 100, prev_h = Some 100\<rparr>
     = Some 100
   \<and> prev_h \<lparr>prev_cx = Some 150, prev_cy = Some 150, prev_w = Some 100, prev_h = Some 100\<rparr>
     = Some 100
   \<and> smooth fuzzy_engine
        \<lparr>prev_cx = Some 150, prev_cy = Some 150, prev_w = Some 100, prev_h = Some 100\<rparr>
        (99, 99, 201, 201) (9 / 10) =
      (Inr (99, 99, 200, 200),
       \<lparr>prev_cx = Some 150, prev_cy = Some 150, prev_w = Some 101, prev_h = Some 101\<rparr>)"
  using smooth_tracking_step
    [of "\<lparr>prev_cx = Some 150, prev_cy = Some 150, prev_w = Some 100, prev_h = Some 100\<rparr>"
      150 150 100 100 fuzzy_engine 99 99 201 201 "9 / 10"]
  by (simp add: Let_def py_int_def)

text \<open>
  C1 as stated fails: after a first call on \<open>(100, 100, 200, 200)\<close>, the call on
  \<open>(100, 100, 201, 200)\<close> with confidence 0.9 leaves the centre \<open>150 + alpha / 2\<close> and
  the width \<open>100.5\<close>, with alpha between 0 and 0.15, so that the left edge is between
  99.75 and 99.825: rounding gives 100, the returned corner is 99.
\<close>

theorem smooth_corners_not_rounded:
  "fst (smooth fuzzy_engine (snd (smooth fuzzy_engine init_state (100, 100, 200, 200) (9 / 10)))
          (100, 100, 201, 200) (9 / 10)) = Inr (99, 100, 200, 200)
   \<and> snd (smooth fuzzy_engine (snd (smooth fuzzy_engine init_state (100, 100, 200, 200) (9 / 10)))
          (100, 100, 201, 200) (9 / 10)) =
       \<lparr>prev_cx = Some (150 + infer (1 / 2) (9 / 10) * (1 / 2)), prev_cy = Some 150,
        prev_w = Some (201 / 2), prev_h = Some 100\<rparr>
   \<and> round (150 + infer (1 / 2) (9 / 10) * (1 / 2) - (201 / 2) / 2) = 100"
proof -
  define a where "a = infer (1 / 2) (9 / 10)"
  have a: "0 \<le> a \<and> a \<le> 15 / 100"
    unfolding a_def by (rule still_region_infer) simp_all
  have x1: "py_int (150 + a * (1 / 2) - (201 / 2) / 2) = 99"
    by (rule py_int_eqI) (use a in simp_all)
  have x2: "py_int (150 + a * (1 / 2) + (201 / 2) / 2) = 200"
    by (rule py_int_eqI) (use a in simp_all)
  have y1: "py_int 100 = 100" and y2: "py_int 200 = 200"
    by (simp_all add: py_int_def)
  have r: "round (150 + a * (1 / 2) - (201 / 2) / 2) = 100"
    by (rule round_unique) (use a in simp_all)
  have step: "smooth fuzzy_engine
          \<lparr>prev_cx = Some 150, prev_cy = Some 150, prev_w = Some 100, prev_h = Some 100\<rparr>
          (100, 100, 201, 200) (9 / 10) =
     (Inr (99, 100, 200, 200),
       \<lparr>prev_cx = Some (150 + a * (1 / 2)), prev_cy = Some 150,
        prev_w = Some (201 / 2), prev_h = Some 100\<rparr>)"
    using x1 x2
    by (simp add: smooth_tracking [where pcx = 150 and pcy = 150 and pw = 100 and ph = 100]
        Let_def clip_def y1 y2 infer_def [symmetric] a_def [symmetric])
  show ?thesis
    unfolding after_first_call a_def [symmetric] step using r by simp
qed

subsection \<open>Cold start\<close>

text \<open>
  C2. The first call to \<open>smooth\<close> after construction, and the first call after
  \<open>reset\<close> from any state, returns the input box as it is, for every box, confidence
  and inference engine, and stores the centre and the size of that box.
\<close>

theorem cold_start_identity:
  "smooth eng init_state (x1, y1, x2, y2) conf =
     (Inr (x1, y1, x2, y2),
      \<lparr>prev_cx = Some ((x1 + x2) / 2), prev_cy = Some ((y1 + y2) / 2),
       prev_w = Some (x2 - x1), prev_h = Some (y2 - y1)\<rparr>)
   \<and> smooth eng (reset s) (x1, y1, x2, y2) conf =
     (Inr (x1, y1, x2, y2),
      \<lparr>prev_cx = Some ((x1 + x2) / 2), prev_cy = Some ((y1 + y2) / 2),
       prev_w = Some (x2 - x1), prev_h = Some (y2 - y1)\<rparr>)"
  by (simp add: smooth_def init_state_def reset_def)

subsection \<open>The inferred alpha\<close>

text \<open>
  C3. For every motion magnitude in [0, 100] and every confidence in [0, 1], the
  inference (fuzzification, minimum for the conjunction, maximum for the aggregation,
  centroid over the 101 sample points, 0.3 as the fallback) yields an alpha in [0, 1].
\<close>

theorem infer_in_unit_interval:
  assumes "0 \<le> m" "m \<le> 100" "0 \<le> c" "c \<le> 1"
  shows "0 \<le> infer m c \<and> infer m c \<le> 1"
proof (cases "fuzzy_engine m c")
  case None
  then show ?thesis by (simp add: infer_def infer_alpha_def)
next
  case (Some a)
  then have "0 \<le> a \<and> a \<le> 1"
    by (rule fuzzy_engine_bounds) (rule alpha_universe_range)
  with Some show ?thesis by (simp add: infer_def infer_alpha_def)
qed

theorem infer_in_unit_interval_witness:
  "(0::real) \<le> 10 \<and> (10::real) \<le> 100 \<and> (0::real) \<le> 9 / 10 \<and> (9 / 10 :: real) \<le> 1
   \<and> 0 \<le> infer 10 (9 / 10) \<and> infer 10 (9 / 10) \<le> 1"
  using infer_in_unit_interval [of 10 "9 / 10"] by simp

text \<open>C5. At motion magnitude 0 and confidence 0.9 the inferred alpha is at most 0.2.\<close>

theorem infer_still_confident: "infer 0 (9 / 10) \<le> 2 / 10"
  using still_region_infer [of 0 "9 / 10"] by simp

text \<open>C6. At motion magnitude 90 and confidence 0.9 the inferred alpha is at least 0.8.\<close>

theorem infer_fast_confident: "8 / 10 \<le> infer 90 (9 / 10)"
  using fast_region_infer [of 90 "9 / 10"] by simp

subsection \<open>Invariants of the state\<close>

text \<open>
  C8. After every call of every sequence of \<open>smooth\<close> and \<open>reset\<close> calls from
  construction, with any engine, the four state fields are all absent or all present.
\<close>

theorem state_never_partial:
  "list_all (\<lambda>(r, s'). never_partial s') (trace eng init_state cs)"
  by (rule trace_never_partial) (simp add: never_partial_def uninitialized_def init_state_def)

text \<open>
  C9. For every call sequence from construction in which every input box is well-formed,
  after every call the stored width and height are not negative, and every \<open>smooth\<close>
  call returns a box (no exception) that is well-formed.
\<close>

theorem well_formed_preserved:
  "list_all well_formed_call cs \<Longrightarrow>
   list_all (\<lambda>(r, s'). size_nonneg s' \<and> well_formed_output r) (trace eng init_state cs)"
  by (rule trace_well_formed)
     (simp_all add: never_partial_def uninitialized_def init_state_def size_nonneg_def)

theorem well_formed_preserved_witness:
  "list_all well_formed_call
     [Smooth (100, 100, 200, 200) (9 / 10), Smooth (110, 100, 210, 200) (9 / 10),
      Reset, Smooth (0, 0, 10, 10) (1 / 2)]
   \<and> list_all (\<lambda>(r, s'). size_nonneg s' \<and> well_formed_output r)
      (trace fuzzy_engine init_state
         [Smooth (100, 100, 200, 200) (9 / 10), Smooth (110, 100, 210, 200) (9 / 10),
          Reset, Smooth (0, 0, 10, 10) (1 / 2)])"
proof -
  have h: "list_all well_formed_call
     [Smooth (100, 100, 200, 200) (9 / 10), Smooth (110, 100, 210, 200) (9 / 10),
      Reset, Smooth (0, 0, 10, 10) (1 / 2)]"
    by (simp add: well_formed_def)
  from h well_formed_preserved [OF h, of fuzzy_engine] show ?thesis by (rule conjI)
qed

text \<open>
  C10. After every Tracking-state call the stored state, which is what
  \<open>get_debug_info\<close> shows, holds the blended centre and size as computed, with no
  integer conversion: \<open>int\<close> is applied to the returned tuple only, so the next call
  starts from the unrounded values. The stored size can differ from the size recomputed
  from the returned box.
\<close>

theorem state_keeps_unrounded:
  assumes "prev_cx s = Some pcx" "prev_cy s = Some pcy" "prev_w s = Some pw" "prev_h s = Some ph"
  shows "snd (smooth eng s (x1, y1, x2, y2) conf) =
      \<lparr>prev_cx = Some (pcx + infer_alpha eng
           (clip (sqrt (((x1 + x2) / 2 - pcx)\<^sup>2 + ((y1 + y2) / 2 - pcy)\<^sup>2)) 0 100)
           (clip conf 0 1) * ((x1 + x2) / 2 - pcx)),
       prev_cy = Some (pcy + infer_alpha eng
           (clip (sqrt (((x1 + x2) / 2 - pcx)\<^sup>2 + ((y1 + y2) / 2 - pcy)\<^sup>2)) 0 100)
           (clip conf 0 1) * ((y1 + y2) / 2 - pcy)),
       prev_w = Some (pw + (1 / 2) * ((x2 - x1) - pw)),
       prev_h = Some (ph + (1 / 2) * ((y2 - y1) - ph))\<rparr>
    \<and> get_debug_info (snd (smooth eng s (x1, y1, x2, y2) conf)) =
      (Some (pcx + infer_alpha eng
           (clip (sqrt (((x1 + x2) / 2 - pcx)\<^sup>2 + ((y1 + y2) / 2 - pcy)\<^sup>2)) 0 100)
           (clip conf 0 1) * ((x1 + x2) / 2 - pcx)),
       Some (pcy + infer_alpha eng
           (clip (sqrt (((x1 + x2) / 2 - pcx)\<^sup>2 + ((y1 + y2) / 2 - pcy)\<^sup>2)) 0 100)
           (clip conf 0 1) * ((y1 + y2) / 2 - pcy)),
       Some (pw + (1 / 2) * ((x2 - x1) - pw)),
       Some (ph + (1 / 2) * ((y2 - y1) - ph)))
    \<and> (\<exists>s bbox conf r s'. tracking s \<and> smooth eng s bbox conf = (Inr r, s')
          \<and> prev_w s' \<noteq> Some (fst (bbox_size r)))"
  using assms stored_size_differs [of eng]
  by (simp add: smooth_tracking Let_def get_debug_info_def)

theorem state_keeps_unrounded_witness:
  "prev_cx \<lparr>prev_cx = Some 150, prev_cy = Some 150, prev_w = Some 100, prev_h = Some 100\<rparr>
     = Some 150
   \<and> prev_cy \<lparr>prev_cx = Some 150, prev_cy = Some 150, prev_w = Some 100, prev_h = Some 100\<rparr>
     = Some 150
   \<and> prev_w \<lparr>prev_cx = Some 150, prev_cy = Some 150, prev_w = Some 100, prev_h = Some 100\<rparr>
     = Some 100
   \<and> prev_h \<lparr>prev_cx = Some 150, prev_cy = Some 150, prev_w = Some 100, prev_h = Some 100\<rparr>
     = Some 100
   \<and> get_debug_info (snd (smooth fuzzy_engine
        \<lparr>prev_cx = Some 150, prev_cy = Some 150, prev_w = Some 100, prev_h = Some 100\<rparr>
        (99, 100, 200, 200) (9 / 10))) =
      (Some (150 + infer (1 / 2) (9 / 10) * (- 1 / 2)), Some 150, Some (201 / 2), Some 100)"
  using state_keeps_unrounded
    [of "\<lparr>prev_cx = Some 150, prev_cy = Some 150, prev_w = Some 100, prev_h = Some 100\<rparr>"
      150 150 100 100 fuzzy_engine 99 100 200 200 "9 / 10"]
  by (simp add: clip_def infer_def get_debug_info_def)

subsection \<open>Faults of \<open>smooth\<close> on floats\<close>




end
